theory Spec2Isabelle
  imports Main "HOL-Library.Word"
begin

unbundle bit_operations_syntax

section \<open>The Parallel namespace of libMesh (include/parallel/parallel.h)\<close>

text \<open>
  The header wraps a message-passing transport (MPI). A computation is a fixed number of
  processes, each running the same wrapper on its own arguments. A collective wrapper is
  embedded as a function on the list of the arguments of all processes, indexed by rank:
  \<open>libMesh::n_processors()\<close> is the length of that list and
  \<open>libMesh::processor_id()\<close> the position in it. A point-to-point wrapper is embedded
  for one process, with the message of its peer as a parameter.

  Counts, ranks and loop indices (\<open>unsigned int\<close> and \<open>int\<close> in the source) are natural
  numbers. Where the source stores the size of a container in an \<open>unsigned int\<close> and
  goes on with that variable, the conversion is written out: the variable holds the size
  modulo \<open>2 ^ 32\<close>. Everywhere else a size goes to the transport as an \<open>int\<close> count, and
  a size beyond the range of \<open>int\<close> is more than the transport carries. The words that
  carry packed booleans are 32-bit machine words, since their shifts and additions are what
  the packing relies on.
\<close>

subsection \<open>Failures\<close>

text \<open>
  Modelled from the spec: the macros \<open>libmesh_assert\<close> and \<open>libmesh_error\<close> are defined
  in libmesh_common.h, outside this header. A contract violation is checked in
  debug builds and aborts the process; \<open>libmesh_error\<close> always aborts. The embedding is
  that of a debug build: a failed assertion is the result \<open>Inl AssertionFailed\<close>, a call
  of \<open>libmesh_error\<close> is \<open>Inl LibmeshError\<close>. A program the transport's standard calls
  erroneous ends in \<open>Inl TransportError\<close>.
\<close>

datatype failure = AssertionFailed | LibmeshError | TransportError

subsection \<open>Packing booleans into words\<close>

text \<open>
  \<open>pack_vector_bool\<close> and \<open>unpack_vector_bool\<close> are templates over the word type
  \<open>T\<close>; the header instantiates them at \<open>unsigned int\<close> only (in \<open>min\<close> and \<open>max\<close> of a
  \<open>std::vector<bool>\<close>), and that instance is embedded. In
  \<open>out[index] += (in[i]?1:0) << offset\<close> the shifted value has the bit pattern of
  \<open>push_bit offset 1\<close> on 32 bits, and \<open>+=\<close> is the wrapping addition of \<open>unsigned int\<close>.
  \<open>unsigned int in_size = in.size()\<close> and \<open>unsigned int out_size = out.size()\<close> keep the
  sizes modulo \<open>2 ^ 32\<close>: the loops run over that many entries, whatever the vectors hold
  beyond them. The assertion of \<open>unpack_vector_bool\<close> compares with \<open>in.size()\<close> itself.
\<close>

type_synonym unsigned_int = "32 word"

definition sizeof_unsigned_int :: nat where
  "sizeof_unsigned_int = 4"

definition data_bits :: nat where
  "data_bits = 8 * sizeof_unsigned_int"

definition pack_vector_bool :: "bool list \<Rightarrow> unsigned_int list" where
  "pack_vector_bool in_vec =
     (let in_size = length in_vec mod 2 ^ 32;
          out_size = in_size div data_bits + (if in_size mod data_bits \<noteq> 0 then 1 else 0);
          out_vec = replicate out_size 0
      in fold (\<lambda>i out.
                 let index = i div data_bits;
                     offset = i mod data_bits
                 in out[index := out ! index + push_bit offset (if in_vec ! i then 1 else 0)])
              [0..<in_size] out_vec)"

text \<open>
  The right-hand side of \<open>out[i] = in[index] << (data_bits-1-offset) >> (data_bits-1)\<close>,
  an \<open>unsigned int\<close>; the assignment to a \<open>bool\<close> tests it against zero.
\<close>

definition extract_bit :: "unsigned_int \<Rightarrow> nat \<Rightarrow> unsigned_int" where
  "extract_bit w offset = drop_bit (data_bits - 1) (push_bit (data_bits - 1 - offset) w)"

definition unpack_vector_bool :: "unsigned_int list \<Rightarrow> bool list \<Rightarrow> failure + bool list" where
  "unpack_vector_bool in_vec out_vec =
     (let out_size = length out_vec mod 2 ^ 32
      in if out_size div data_bits + (if out_size mod data_bits \<noteq> 0 then 1 else 0) = length in_vec
         then Inr (fold (\<lambda>i out.
                           let index = i div data_bits;
                               offset = i mod data_bits
                           in out[i := (extract_bit (in_vec ! index) offset \<noteq> 0)])
                        [0..<out_size] out_vec)
         else Inl AssertionFailed)"

subsection \<open>The transport\<close>

text \<open>
  The transport (MPI) is an external collaborator: the header calls it and does not
  implement it. Its primitives are embedded after the MPI standard, on the buffers of all
  processes at once. Every call is recorded, so that a wrapper's result also tells which
  transport calls it issued: a computation is a failure, or the list of its transport
  calls together with its result. Where the standard calls a program erroneous (counts that
  differ between the processes of a collective, a root that is no rank, a receive buffer
  that is too short), the embedding gives \<open>Inl TransportError\<close>.
\<close>

datatype mpi_call =
    Call_Allreduce nat
  | Call_Bcast nat nat
  | Call_Gather nat
  | Call_Gatherv nat
  | Call_Allgather
  | Call_Allgatherv
  | Call_Alltoall nat
  | Call_Sendrecv nat nat nat nat

type_synonym 'a par = "failure + (mpi_call list \<times> 'a)"

definition return_par :: "'a \<Rightarrow> 'a par" where
  "return_par x = Inr ([], x)"

definition bind_par :: "'a par \<Rightarrow> ('a \<Rightarrow> 'b par) \<Rightarrow> 'b par" where
  "bind_par m f =
     (case m of
        Inl e \<Rightarrow> Inl e
      | Inr (calls, x) \<Rightarrow>
          (case f x of
             Inl e \<Rightarrow> Inl e
           | Inr (calls', y) \<Rightarrow> Inr (calls @ calls', y)))"

definition libmesh_assert :: "bool \<Rightarrow> unit par" where
  "libmesh_assert asserted = (if asserted then Inr ([], ()) else Inl AssertionFailed)"

definition libmesh_error :: "'a par" where
  "libmesh_error = Inl LibmeshError"

text \<open>
  A step that every process runs on its own data and that can fail (an assertion):
  the computation fails as soon as one process does.
\<close>

fun on_each_process :: "(failure + 'a) list \<Rightarrow> 'a list par" where
  "on_each_process [] = Inr ([], [])"
| "on_each_process (Inl e # rest) = Inl e"
| "on_each_process (Inr x # rest) =
     (case on_each_process rest of
        Inl e \<Rightarrow> Inl e
      | Inr (calls, xs) \<Rightarrow> Inr (calls, x # xs))"

text \<open>
  A quick return that each process decides on its own data, before a collective call. When
  all processes return, there is no call; when none does, the call takes place; when only
  some do, the others wait for them forever, which is an erroneous program.
\<close>

definition unless_all_return :: "bool list \<Rightarrow> 'a par \<Rightarrow> 'a par \<Rightarrow> 'a par" where
  "unless_all_return returns quick collective =
     (if list_all (\<lambda>r. r) returns then quick
      else if list_ex (\<lambda>r. r) returns then Inl TransportError
      else collective)"

text \<open>\<open>std::vector::resize\<close>, with the value new entries are initialised to.\<close>

definition resize :: "nat \<Rightarrow> 'a \<Rightarrow> 'a list \<Rightarrow> 'a list" where
  "resize n fill xs = take n xs @ replicate (n - length xs) fill"

text \<open>Writing a block into a buffer at an offset.\<close>

definition place :: "nat \<Rightarrow> 'a list \<Rightarrow> 'a list \<Rightarrow> 'a list" where
  "place offset block buf = take offset buf @ block @ drop (offset + length block) buf"

text \<open>
  \<open>MPI_Allreduce\<close>: every process contributes \<open>count\<close> elements and receives the
  element-wise reduction over all processes.
\<close>

definition MPI_Allreduce :: "('a \<Rightarrow> 'a \<Rightarrow> 'a) \<Rightarrow> 'a list list \<Rightarrow> 'a list list par" where
  "MPI_Allreduce op sendbufs =
     (case sendbufs of
        [] \<Rightarrow> Inl TransportError
      | b # bs \<Rightarrow>
          if list_all (\<lambda>c. length c = length b) bs
          then Inr ([Call_Allreduce (length b)],
                    replicate (length sendbufs) (foldl (\<lambda>acc c. map2 op acc c) b bs))
          else Inl TransportError)"

text \<open>\<open>MPI_Bcast\<close>: the buffer of the root replaces the buffer of every process.\<close>

definition MPI_Bcast :: "'a list list \<Rightarrow> nat \<Rightarrow> 'a list list par" where
  "MPI_Bcast bufs root =
     (if root < length bufs \<and> list_all (\<lambda>b. length b = length (bufs ! root)) bufs
      then Inr ([Call_Bcast (length (bufs ! root)) root], replicate (length bufs) (bufs ! root))
      else Inl TransportError)"

text \<open>
  \<open>MPI_Gather\<close> and \<open>MPI_Allgather\<close> with one element per process: the receive buffer of
  the root (of every process) gets the elements in the order of the ranks.
\<close>

definition MPI_Gather :: "'a list \<Rightarrow> 'a list list \<Rightarrow> nat \<Rightarrow> 'a list list par" where
  "MPI_Gather sends recvbufs root =
     (if root < length sends \<and> length recvbufs = length sends
         \<and> length sends \<le> length (recvbufs ! root)
      then Inr ([Call_Gather root],
                recvbufs[root := sends @ drop (length sends) (recvbufs ! root)])
      else Inl TransportError)"

definition MPI_Allgather :: "'a list \<Rightarrow> 'a list list \<Rightarrow> 'a list list par" where
  "MPI_Allgather sends recvbufs =
     (if length recvbufs = length sends \<and> list_all (\<lambda>b. length sends \<le> length b) recvbufs
      then Inr ([Call_Allgather], map (\<lambda>b. sends @ drop (length sends) b) recvbufs)
      else Inl TransportError)"

text \<open>
  \<open>MPI_Gatherv\<close>: process \<open>p\<close> sends \<open>sendcounts ! p\<close> elements; the root stores them in
  its receive buffer at the displacement it gives for \<open>p\<close>, and must expect that many.
  The receive arguments of the other processes are not significant, and their buffers
  are not written. \<open>MPI_Allgatherv\<close> does on every process what \<open>MPI_Gatherv\<close> does on
  the root.
\<close>

definition gathered :: "'a list list \<Rightarrow> nat list \<Rightarrow> nat list \<Rightarrow> 'a list \<Rightarrow> 'a list" where
  "gathered sendbufs sendcounts displs recvbuf =
     fold (\<lambda>p buf. place (displs ! p) (take (sendcounts ! p) (sendbufs ! p)) buf)
          [0..<length sendbufs] recvbuf"

definition gatherv_fits :: "'a list list \<Rightarrow> nat list \<Rightarrow> 'a list \<Rightarrow> nat list \<Rightarrow> nat list \<Rightarrow> bool" where
  "gatherv_fits sendbufs sendcounts recvbuf recvcounts displs =
     list_all (\<lambda>p. sendcounts ! p \<le> length (sendbufs ! p)
                    \<and> recvcounts ! p = sendcounts ! p
                    \<and> displs ! p + recvcounts ! p \<le> length recvbuf)
              [0..<length sendbufs]"

definition MPI_Gatherv ::
  "'a list list \<Rightarrow> nat list \<Rightarrow> 'a list list \<Rightarrow> nat list list \<Rightarrow> nat list list \<Rightarrow> nat
     \<Rightarrow> 'a list list par" where
  "MPI_Gatherv sendbufs sendcounts recvbufs recvcounts displs root =
     (if root < length sendbufs
         \<and> gatherv_fits sendbufs sendcounts (recvbufs ! root) (recvcounts ! root) (displs ! root)
      then Inr ([Call_Gatherv root],
                recvbufs[root := gathered sendbufs sendcounts (displs ! root) (recvbufs ! root)])
      else Inl TransportError)"

definition MPI_Allgatherv ::
  "'a list list \<Rightarrow> nat list \<Rightarrow> 'a list list \<Rightarrow> nat list list \<Rightarrow> nat list list
     \<Rightarrow> 'a list list par" where
  "MPI_Allgatherv sendbufs sendcounts recvbufs recvcounts displs =
     (if list_all (\<lambda>p. gatherv_fits sendbufs sendcounts (recvbufs ! p) (recvcounts ! p) (displs ! p))
                  [0..<length sendbufs]
      then Inr ([Call_Allgatherv],
                map (\<lambda>p. gathered sendbufs sendcounts (displs ! p) (recvbufs ! p))
                    [0..<length sendbufs])
      else Inl TransportError)"

text \<open>
  \<open>MPI_Alltoall\<close>: every process sends its \<open>j\<close>-th block of \<open>count\<close> elements to
  process \<open>j\<close> and stores the block it receives from process \<open>j\<close> as the \<open>j\<close>-th block
  of its receive buffer. The count is the same on all processes.
\<close>

definition MPI_Alltoall ::
  "'a list list \<Rightarrow> nat list \<Rightarrow> 'a list list \<Rightarrow> nat list \<Rightarrow> 'a list list par" where
  "MPI_Alltoall sendbufs sendcounts recvbufs recvcounts =
     (case sendcounts of
        [] \<Rightarrow> Inl TransportError
      | count # _ \<Rightarrow>
          let n = length sendbufs in
          if list_all (\<lambda>c. c = count) (sendcounts @ recvcounts)
             \<and> list_all (\<lambda>b. n * count \<le> length b) (sendbufs @ recvbufs)
          then Inr ([Call_Alltoall count],
                    map (\<lambda>i. concat (map (\<lambda>j. take count (drop (i * count) (sendbufs ! j))) [0..<n])
                              @ drop (n * count) (recvbufs ! i))
                        [0..<n])
          else Inl TransportError)"

text \<open>
  \<open>MPI_Sendrecv\<close>, seen from one process: it sends \<open>sendbuf\<close> to \<open>dest\<close> and stores the
  message \<open>incoming\<close>, which the process \<open>source\<close> sends to it, in its receive buffer.
\<close>

definition MPI_Sendrecv :: "'a list \<Rightarrow> nat \<Rightarrow> 'a list \<Rightarrow> nat \<Rightarrow> 'a list \<Rightarrow> 'a list par" where
  "MPI_Sendrecv sendbuf dest recvbuf source incoming =
     (if length incoming \<le> length recvbuf
      then Inr ([Call_Sendrecv dest (length sendbuf) source (length recvbuf)],
                incoming @ drop (length incoming) recvbuf)
      else Inl TransportError)"

subsection \<open>The processes\<close>

text \<open>
  Modelled from the spec: \<open>libMesh::n_processors()\<close> and \<open>libMesh::processor_id()\<close> are
  declared outside this header. They give the process count \<open>N\<close> and the local rank \<open>r\<close>
  with \<open>0 \<le> r < N\<close>, fixed for the life of the process. For a collective wrapper the
  processes are the positions of the list of their arguments.
\<close>

abbreviation (input) n_processors :: "'a list \<Rightarrow> nat" where
  "n_processors world \<equiv> length world"

abbreviation (input) processor_ids :: "'a list \<Rightarrow> nat list" where
  "processor_ids world \<equiv> [0..<length world]"

subsection \<open>The types of the values\<close>

text \<open>
  \<open>min\<close>, \<open>max\<close> and \<open>verify\<close> are templates over the type \<open>T\<close> of the values. What they
  use of \<open>T\<close> is its \<open>operator==\<close> and the reductions \<open>MPI_MIN\<close> and \<open>MPI_MAX\<close> of the
  transport on the datatype that \<open>datatype<T>()\<close> registers for it. A template argument is
  embedded as the record of these three.
\<close>

record 'a value_type =
  equals :: "'a \<Rightarrow> 'a \<Rightarrow> bool"
  MPI_MIN :: "'a \<Rightarrow> 'a \<Rightarrow> 'a"
  MPI_MAX :: "'a \<Rightarrow> 'a \<Rightarrow> 'a"

text \<open>
  The integer types the header registers (\<open>char\<close>, \<open>short int\<close>, \<open>int\<close>, \<open>long\<close> and
  their unsigned versions): the values are linearly ordered and \<open>==\<close> is the identity of
  values.
\<close>

definition integer_type :: "'a::linorder value_type" where
  "integer_type = \<lparr>equals = (=), MPI_MIN = min, MPI_MAX = max\<rparr>"

text \<open>
  The floating-point types the header registers (\<open>float\<close>, \<open>double\<close>, \<open>long double\<close>) are
  IEEE 754 formats. A value is a NaN, an infinity with its sign bit, or a finite number
  with its sign bit and its magnitude: the exponent and fraction fields read as one
  unsigned number, which orders the finite numbers of one sign by their distance from
  zero. The two zeros are the finite numbers of magnitude 0. \<open>operator<\<close> and \<open>operator==\<close>
  are the comparisons of IEEE 754: both are false as soon as one operand is a NaN, and the
  two zeros are equal. The transport's standard does not say what \<open>MPI_MIN\<close> and \<open>MPI_MAX\<close>
  give on a NaN; they are embedded as the selection by \<open>operator<\<close> that keeps the
  accumulated operand unless the other one is smaller (larger).
\<close>

datatype floating = NaN | Infinity bool | Finite bool nat

definition signed_magnitude :: "bool \<Rightarrow> nat \<Rightarrow> int" where
  "signed_magnitude sign magnitude = (if sign then - int magnitude else int magnitude)"

fun floating_less :: "floating \<Rightarrow> floating \<Rightarrow> bool" where
  "floating_less NaN y = False"
| "floating_less x NaN = False"
| "floating_less (Infinity s) (Infinity t) = (s \<and> \<not> t)"
| "floating_less (Infinity s) (Finite t n) = s"
| "floating_less (Finite s m) (Infinity t) = (\<not> t)"
| "floating_less (Finite s m) (Finite t n) = (signed_magnitude s m < signed_magnitude t n)"

fun floating_equal :: "floating \<Rightarrow> floating \<Rightarrow> bool" where
  "floating_equal NaN y = False"
| "floating_equal x NaN = False"
| "floating_equal (Infinity s) (Infinity t) = (s = t)"
| "floating_equal (Infinity s) (Finite t n) = False"
| "floating_equal (Finite s m) (Infinity t) = False"
| "floating_equal (Finite s m) (Finite t n) = (signed_magnitude s m = signed_magnitude t n)"

definition floating_type :: "floating value_type" where
  "floating_type =
     \<lparr>equals = floating_equal,
      MPI_MIN = (\<lambda>a b. if floating_less b a then b else a),
      MPI_MAX = (\<lambda>a b. if floating_less a b then b else a)\<rparr>"

subsection \<open>Reductions\<close>

text \<open>
  \<open>min\<close>, \<open>max\<close> and \<open>sum\<close> are overloaded in the header; each overload has a name of
  its own here. The argument is the list of the values the processes pass, the result the
  list of the values they hold after the call.
\<close>

definition min_scalar :: "'a value_type \<Rightarrow> 'a list \<Rightarrow> 'a list par" where
  "min_scalar T rs =
     (if n_processors rs > 1
      then bind_par (MPI_Allreduce (MPI_MIN T) (map (\<lambda>r. [r]) rs))
             (\<lambda>temp. return_par (map hd temp))
      else return_par rs)"

definition max_scalar :: "'a value_type \<Rightarrow> 'a list \<Rightarrow> 'a list par" where
  "max_scalar T rs =
     (if n_processors rs > 1
      then bind_par (MPI_Allreduce (MPI_MAX T) (map (\<lambda>r. [r]) rs))
             (\<lambda>temp. return_par (map hd temp))
      else return_par rs)"

text \<open>A \<open>bool\<close> travels as an \<open>unsigned int\<close> and comes back as the test against zero.\<close>

definition min_bool :: "bool list \<Rightarrow> bool list par" where
  "min_bool rs =
     (if n_processors rs > 1
      then bind_par (MPI_Allreduce min (map (\<lambda>r. [if r then 1 else 0 :: unsigned_int]) rs))
             (\<lambda>temp. return_par (map (\<lambda>t. hd t \<noteq> 0) temp))
      else return_par rs)"

definition max_bool :: "bool list \<Rightarrow> bool list par" where
  "max_bool rs =
     (if n_processors rs > 1
      then bind_par (MPI_Allreduce max (map (\<lambda>r. [if r then 1 else 0 :: unsigned_int]) rs))
             (\<lambda>temp. return_par (map (\<lambda>t. hd t \<noteq> 0) temp))
      else return_par rs)"

definition min_vector :: "'a value_type \<Rightarrow> 'a list list \<Rightarrow> 'a list list par" where
  "min_vector T rs =
     (if n_processors rs > 1
      then bind_par (MPI_Allreduce (MPI_MIN T) rs) (\<lambda>temp. return_par temp)
      else return_par rs)"

definition max_vector :: "'a value_type \<Rightarrow> 'a list list \<Rightarrow> 'a list list par" where
  "max_vector T rs =
     (if n_processors rs > 1
      then bind_par (MPI_Allreduce (MPI_MAX T) rs) (\<lambda>temp. return_par temp)
      else return_par rs)"

text \<open>
  A \<open>std::vector<bool>\<close> is packed, reduced with \<open>MPI_BAND\<close> or \<open>MPI_BOR\<close> on the words, and
  unpacked into the vector the process passed.
\<close>

definition min_vector_bool :: "bool list list \<Rightarrow> bool list list par" where
  "min_vector_bool rs =
     (if n_processors rs > 1
      then let rchar = map pack_vector_bool rs
           in bind_par (MPI_Allreduce (AND) rchar)
                (\<lambda>temp. on_each_process (map2 unpack_vector_bool temp rs))
      else return_par rs)"

definition max_vector_bool :: "bool list list \<Rightarrow> bool list list par" where
  "max_vector_bool rs =
     (if n_processors rs > 1
      then let rchar = map pack_vector_bool rs
           in bind_par (MPI_Allreduce (OR) rchar)
                (\<lambda>temp. on_each_process (map2 unpack_vector_bool temp rs))
      else return_par rs)"

definition sum_scalar :: "'a::plus list \<Rightarrow> 'a list par" where
  "sum_scalar rs =
     (if n_processors rs > 1
      then let temp = rs
           in bind_par (MPI_Allreduce (+) (map (\<lambda>t. [t]) temp))
                (\<lambda>r. return_par (map hd r))
      else return_par rs)"

text \<open>
  \<open>sum\<close> of a vector skips the call on a process whose vector is empty; the processes
  that do call then meet counts that differ.
\<close>

definition sum_vector :: "'a::plus list list \<Rightarrow> 'a list list par" where
  "sum_vector rs =
     (if n_processors rs > 1
      then unless_all_return (map (\<lambda>r. r = []) rs)
             (return_par rs)
             (let temp = rs in MPI_Allreduce (+) temp)
      else return_par rs)"

subsection \<open>Verification\<close>

text \<open>
  \<open>verify\<close> is one template; with a scalar \<open>T\<close> its calls of \<open>Parallel::min\<close> and
  \<open>Parallel::max\<close> resolve to the scalar overloads, with a vector to the vector overloads.
  The result is the flag each process returns. Two vectors are \<open>==\<close> when they have one
  size and their entries are \<open>==\<close> one by one.
\<close>

definition verify :: "'a value_type \<Rightarrow> 'a list \<Rightarrow> bool list par" where
  "verify T rs =
     (if n_processors rs > 1
      then bind_par (min_scalar T rs) (\<lambda>tempmin.
           bind_par (max_scalar T rs) (\<lambda>tempmax.
           let verified = map (\<lambda>(r, mn, mx). equals T r mn \<and> equals T r mx)
                              (zip rs (zip tempmin tempmax))
           in min_bool verified))
      else return_par (map (\<lambda>r. True) rs))"

definition verify_vector :: "'a value_type \<Rightarrow> 'a list list \<Rightarrow> bool list par" where
  "verify_vector T rs =
     (if n_processors rs > 1
      then bind_par (min_vector T rs) (\<lambda>tempmin.
           bind_par (max_vector T rs) (\<lambda>tempmax.
           let verified = map (\<lambda>(r, mn, mx). list_all2 (equals T) r mn \<and> list_all2 (equals T) r mx)
                              (zip rs (zip tempmin tempmax))
           in min_bool verified))
      else return_par (map (\<lambda>r. True) rs))"

text \<open>
  The conversion of a \<open>char\<close> to a \<open>short int\<close> in \<open>temp.push_back(r[i])\<close>, with \<open>char\<close>
  signed: the value lies between -128 and 127, and a \<open>short int\<close> holds it as it is.
\<close>

definition short_of_char :: "char \<Rightarrow> int" where
  "short_of_char c = (let v = int (of_char c) in if v < 128 then v else v - 256)"

definition verify_string :: "string list \<Rightarrow> bool list par" where
  "verify_string rs =
     (if n_processors rs > 1
      then let temp = map (\<lambda>r. fold (\<lambda>i temp. temp @ [short_of_char (r ! i)]) [0..<length r] []) rs
           in verify_vector integer_type temp
      else return_par (map (\<lambda>r. True) rs))"

subsection \<open>Gather, allgather and alltoall\<close>

text \<open>
  \<open>gather\<close> of one value per process. Only the root resizes its \<open>recv\<close>. New
  entries of a resized vector are value-initialised, which is zero for the scalar types
  the transport knows.
\<close>

definition gather_scalar :: "nat \<Rightarrow> 'a::zero list \<Rightarrow> 'a list list \<Rightarrow> 'a list list par" where
  "gather_scalar root_id sends recvs =
     bind_par (libmesh_assert (root_id < n_processors sends)) (\<lambda>_.
       let recvs = map (\<lambda>processor_id.
                          if processor_id = root_id
                          then resize (n_processors sends) 0 (recvs ! processor_id)
                          else recvs ! processor_id)
                       (processor_ids sends)
       in if n_processors sends > 1
          then MPI_Gather sends recvs root_id
          else return_par (map (\<lambda>processor_id. (recvs ! processor_id)[0 := sends ! processor_id])
                               (processor_ids sends)))"

definition allgather_scalar :: "'a::zero list \<Rightarrow> 'a list list \<Rightarrow> 'a list list par" where
  "allgather_scalar sends recvs =
     (let recvs = map (\<lambda>processor_id. resize (n_processors sends) 0 (recvs ! processor_id))
                      (processor_ids sends)
      in if n_processors sends > 1
         then MPI_Allgather sends recvs
         else return_par (map (\<lambda>processor_id. (recvs ! processor_id)[0 := sends ! processor_id])
                              (processor_ids sends)))"

text \<open>
  The loop that finds the total size and sets up the displacement of each process:
  \<open>displacements[i] = globalsize; globalsize += sendlengths[i]\<close>.
\<close>

definition displacement_offsets :: "nat \<Rightarrow> nat list \<Rightarrow> nat list \<times> nat" where
  "displacement_offsets n_procs sendlengths =
     fold (\<lambda>i (displacements, globalsize).
             (displacements[i := globalsize], globalsize + sendlengths ! i))
          [0..<n_procs] (replicate n_procs 0, 0)"

definition gather_vector :: "nat \<Rightarrow> 'a::zero list list \<Rightarrow> 'a list list par" where
  "gather_vector root_id rs =
     (if n_processors rs = 1
      then bind_par (libmesh_assert (list_all (\<lambda>processor_id. processor_id = root_id)
                                             (processor_ids rs)))
             (\<lambda>_. return_par rs)
      else
        let mysize = map length rs
        in bind_par (allgather_scalar mysize
                       (replicate (n_processors rs) (replicate (n_processors rs) 0)))
             (\<lambda>sendlengths.
                let offsets = map (displacement_offsets (n_processors rs)) sendlengths;
                    displacements = map fst offsets;
                    globalsize = map snd offsets
                in unless_all_return (map (\<lambda>g. g = 0) globalsize)
                     (return_par rs)
                     (let r_src = rs;
                          r = map (\<lambda>processor_id.
                                     if root_id = processor_id
                                     then resize (globalsize ! processor_id) 0 (rs ! processor_id)
                                     else rs ! processor_id)
                                  (processor_ids rs)
                      in MPI_Gatherv r_src mysize r sendlengths displacements root_id)))"

definition allgather_vector :: "'a::zero list list \<Rightarrow> 'a list list par" where
  "allgather_vector rs =
     (if n_processors rs = 1
      then return_par rs
      else
        let mysize = map length rs
        in bind_par (allgather_scalar mysize
                       (replicate (n_processors rs) (replicate (n_processors rs) 0)))
             (\<lambda>sendlengths.
                let offsets = map (displacement_offsets (n_processors rs)) sendlengths;
                    displacements = map fst offsets;
                    globalsize = map snd offsets
                in unless_all_return (map (\<lambda>g. g = 0) globalsize)
                     (return_par rs)
                     (let r_src = rs;
                          r = map (\<lambda>processor_id.
                                     resize (globalsize ! processor_id) 0 (rs ! processor_id))
                                  (processor_ids rs)
                      in MPI_Allgatherv r_src mysize r sendlengths displacements)))"

definition alltoall :: "'a list list \<Rightarrow> 'a list list par" where
  "alltoall bufs =
     (if n_processors bufs = 1
      then return_par bufs
      else
        let size_per_proc = map (\<lambda>buf. length buf div n_processors bufs) bufs
        in bind_par (libmesh_assert (list_all (\<lambda>buf. length buf mod n_processors bufs = 0) bufs))
             (\<lambda>_. let tmp = bufs
                   in MPI_Alltoall tmp size_per_proc bufs size_per_proc))"

subsection \<open>Broadcast\<close>

definition broadcast_scalar :: "'a list \<Rightarrow> nat \<Rightarrow> 'a list par" where
  "broadcast_scalar datas root_id =
     (if n_processors datas = 1
      then bind_par (libmesh_assert (list_all (\<lambda>processor_id. processor_id = root_id)
                                             (processor_ids datas)))
             (\<lambda>_. return_par datas)
      else bind_par (MPI_Bcast (map (\<lambda>d. [d]) datas) root_id)
             (\<lambda>bufs. return_par (map hd bufs)))"

definition broadcast_vector :: "'a list list \<Rightarrow> nat \<Rightarrow> 'a list list par" where
  "broadcast_vector datas root_id =
     (if n_processors datas = 1
      then bind_par (libmesh_assert (list_all (\<lambda>processor_id. processor_id = root_id)
                                             (processor_ids datas)))
             (\<lambda>_. return_par datas)
      else MPI_Bcast datas root_id)"

text \<open>
  \<open>broadcast\<close> of a \<open>std::string\<close>: the length is broadcast, every process makes a
  \<open>std::vector<char>\<close> of that length, the root fills it with its string, the vector is
  broadcast, and every process rebuilds its string from it with \<open>push_back\<close>. At the
  end the root asserts that its string is what it was.
\<close>

definition broadcast_string :: "string list \<Rightarrow> nat \<Rightarrow> string list par" where
  "broadcast_string datas root_id =
     (if n_processors datas = 1
      then bind_par (libmesh_assert (list_all (\<lambda>processor_id. processor_id = root_id)
                                             (processor_ids datas)))
             (\<lambda>_. return_par datas)
      else
        bind_par (broadcast_scalar (map length datas) root_id) (\<lambda>data_size.
          let orig = datas;
              data_c = map (\<lambda>processor_id.
                              let data_c = replicate (data_size ! processor_id) (CHR 0x00)
                              in if processor_id = root_id
                                 then fold (\<lambda>i data_c. data_c[i := datas ! processor_id ! i])
                                        [0..<length (datas ! processor_id)] data_c
                                 else data_c)
                           (processor_ids datas)
          in bind_par (broadcast_vector data_c root_id) (\<lambda>data_c.
               let data = map (\<lambda>processor_id.
                                 fold (\<lambda>i data. data @ [data_c ! processor_id ! i])
                                      [0..<length (data_c ! processor_id)] [])
                              (processor_ids datas)
               in bind_par (libmesh_assert
                              (list_all (\<lambda>processor_id.
                                           if processor_id = root_id
                                           then data ! processor_id = orig ! processor_id
                                           else True)
                                        (processor_ids datas)))
                    (\<lambda>_. return_par data))))"

subsection \<open>Paired send and receive\<close>

text \<open>
  \<open>send_receive\<close> on the process \<open>processor_id\<close>. The parameter \<open>incoming\<close> is what the
  process \<open>source_processor_id\<close> passes as \<open>send\<close> in the call that matches. The result is
  the new \<open>recv\<close>. A length that is about to be received sits in a one-element buffer,
  whose content before the call does not matter.
\<close>

definition send_receive :: "nat \<Rightarrow> nat \<Rightarrow> 'a \<Rightarrow> nat \<Rightarrow> 'a \<Rightarrow> 'a \<Rightarrow> 'a par" where
  "send_receive processor_id dest_processor_id send source_processor_id recv incoming =
     (if dest_processor_id = processor_id \<and> source_processor_id = processor_id
      then let recv = send in return_par recv
      else bind_par (MPI_Sendrecv [send] dest_processor_id [recv] source_processor_id [incoming])
             (\<lambda>recv. return_par (hd recv)))"

definition send_receive_vector ::
  "nat \<Rightarrow> nat \<Rightarrow> 'a::zero list \<Rightarrow> nat \<Rightarrow> 'a list \<Rightarrow> 'a list \<Rightarrow> 'a list par" where
  "send_receive_vector processor_id dest_processor_id send source_processor_id recv incoming =
     (if dest_processor_id = processor_id \<and> source_processor_id = processor_id
      then let recv = send in return_par recv
      else
        let sendsize = length send
        in bind_par (MPI_Sendrecv [sendsize] dest_processor_id [0] source_processor_id
                       [length incoming])
             (\<lambda>recvsize.
                let recvsize = hd recvsize;
                    recv = resize recvsize 0 recv
                in MPI_Sendrecv send dest_processor_id recv source_processor_id incoming))"

definition send_receive_vectors ::
  "nat \<Rightarrow> nat \<Rightarrow> 'a::zero list list \<Rightarrow> nat \<Rightarrow> 'a list list \<Rightarrow> 'a list list
     \<Rightarrow> 'a list list par" where
  "send_receive_vectors processor_id dest_processor_id send source_processor_id recv incoming =
     (if dest_processor_id = processor_id \<and> source_processor_id = processor_id
      then let recv = send in return_par recv
      else
        let sendsize = length send
        in bind_par (MPI_Sendrecv [sendsize] dest_processor_id [0] source_processor_id
                       [length incoming])
             (\<lambda>recvsize.
                let recvsize = hd recvsize;
                    recv = resize recvsize [] recv;
                    (sendsizes, sendsizesum) =
                      fold (\<lambda>i (sendsizes, sendsizesum).
                              let sendsizes = sendsizes[i := length (send ! i)]
                              in (sendsizes, sendsizesum + sendsizes ! i))
                           [0..<sendsize] (replicate sendsize 0, 0)
                in bind_par (MPI_Sendrecv sendsizes dest_processor_id (replicate recvsize 0)
                               source_processor_id (map length incoming))
                     (\<lambda>recvsizes.
                        let (recvsizesum, recv) =
                              fold (\<lambda>i (recvsizesum, recv).
                                      (recvsizesum + recvsizes ! i,
                                       recv[i := resize (recvsizes ! i) 0 (recv ! i)]))
                                   [0..<recvsize] (0, recv);
                            (senddata, out) =
                              fold (\<lambda>i (senddata, out).
                                      (place out (send ! i) senddata, out + length (send ! i)))
                                   [0..<sendsize] (replicate sendsizesum 0, 0)
                        in bind_par (libmesh_assert (out = length senddata)) (\<lambda>_.
                           bind_par (MPI_Sendrecv senddata dest_processor_id
                                       (replicate recvsizesum 0) source_processor_id
                                       (concat incoming))
                             (\<lambda>recvdata.
                                let (recv, in_pos) =
                                      fold (\<lambda>i (recv, in_pos).
                                              (recv[i := place 0 (take (recvsizes ! i) (drop in_pos recvdata))
                                                           (recv ! i)],
                                               in_pos + recvsizes ! i))
                                           [0..<recvsize] (recv, 0)
                                in bind_par (libmesh_assert (in_pos = length recvdata))
                                     (\<lambda>_. return_par recv))))))"

subsection \<open>Without a transport\<close>

text \<open>
  The definitions of the header when \<open>HAVE_MPI\<close> is not defined: one process, no
  transport. \<open>request\<close> is an \<open>unsigned int\<close> there and \<open>Status\<close> has no fields. A
  function with an empty body leaves what it got by reference as it is.
\<close>

type_synonym request = unsigned_int

datatype Status = Status

definition verify_serial :: "'a \<Rightarrow> bool par" where
  "verify_serial r = return_par True"

definition min_serial :: "'a \<Rightarrow> 'a par" where
  "min_serial r = return_par r"

definition max_serial :: "'a \<Rightarrow> 'a par" where
  "max_serial r = return_par r"

definition sum_serial :: "'a \<Rightarrow> 'a par" where
  "sum_serial r = return_par r"

definition send_serial :: "nat \<Rightarrow> 'a list \<Rightarrow> nat \<Rightarrow> 'a list par" where
  "send_serial dest_processor_id buf tag = bind_par libmesh_error (\<lambda>_ :: unit. return_par buf)"

definition isend_serial :: "nat \<Rightarrow> 'a list \<Rightarrow> request \<Rightarrow> int \<Rightarrow> ('a list \<times> request) par" where
  "isend_serial dest_processor_id buf r tag = return_par (buf, r)"

definition recv_serial :: "int \<Rightarrow> 'a list \<Rightarrow> int \<Rightarrow> (Status \<times> 'a list) par" where
  "recv_serial src_processor_id buf tag =
     bind_par libmesh_error (\<lambda>_ :: unit. return_par (Status, buf))"

definition irecv_serial :: "int \<Rightarrow> 'a list \<Rightarrow> request \<Rightarrow> int \<Rightarrow> ('a list \<times> request) par" where
  "irecv_serial src_processor_id buf r tag = return_par (buf, r)"

definition wait_serial :: "request \<Rightarrow> request par" where
  "wait_serial r = return_par r"

definition wait_all_serial :: "request list \<Rightarrow> request list par" where
  "wait_all_serial r = return_par r"

definition send_receive_serial :: "nat \<Rightarrow> 'a \<Rightarrow> nat \<Rightarrow> 'a \<Rightarrow> 'a par" where
  "send_receive_serial send_tgt send recv_source recv =
     bind_par (libmesh_assert (send_tgt = recv_source)) (\<lambda>_. let recv = send in return_par recv)"

definition gather_scalar_serial :: "nat \<Rightarrow> 'a::zero \<Rightarrow> 'a list \<Rightarrow> 'a list par" where
  "gather_scalar_serial root_id send recv =
     bind_par (libmesh_assert (root_id = 0)) (\<lambda>_.
       let recv = resize 1 0 recv in return_par (recv[0 := send]))"

definition gather_vector_serial :: "nat \<Rightarrow> 'a list \<Rightarrow> 'a list par" where
  "gather_vector_serial root_id r = return_par r"

definition allgather_scalar_serial :: "'a::zero \<Rightarrow> 'a list \<Rightarrow> 'a list par" where
  "allgather_scalar_serial send recv = (let recv = resize 1 0 recv in return_par (recv[0 := send]))"

definition allgather_vector_serial :: "'a list \<Rightarrow> 'a list par" where
  "allgather_vector_serial r = return_par r"

definition alltoall_serial :: "'a list \<Rightarrow> 'a list par" where
  "alltoall_serial r = return_par r"

definition broadcast_serial :: "'a \<Rightarrow> nat \<Rightarrow> 'a par" where
  "broadcast_serial data root_id = return_par data"

section \<open>Properties\<close>

subsection \<open>Bits of the packed words\<close>

lemma data_bits_eq: "data_bits = 32"
  by (simp add: data_bits_def sizeof_unsigned_int_def)

lemma extract_bit_iff: "offset < 32 \<Longrightarrow> extract_bit w offset \<noteq> 0 \<longleftrightarrow> bit w offset"
  unfolding extract_bit_def data_bits_eq
  using drop_bit_eq_zero_iff_not_bit_last [of "push_bit (31 - offset) w"]
  by (simp add: bit_simps)

lemma extract_bit_cases: "extract_bit w offset = 0 \<or> extract_bit w offset = 1"
proof (cases "bit (push_bit (31 - offset) w) 31")
  case True
  have "drop_bit 31 (push_bit (31 - offset) w) = 1"
    by (rule bit_word_eqI) (use True in \<open>auto simp add: bit_simps dest: bit_imp_le_length\<close>)
  then show ?thesis by (simp add: extract_bit_def data_bits_eq)
next
  case False
  then have "drop_bit 31 (push_bit (31 - offset) w) = 0"
    using drop_bit_eq_zero_iff_not_bit_last [of "push_bit (31 - offset) w"] by simp
  then show ?thesis by (simp add: extract_bit_def data_bits_eq)
qed

lemma fold_update_map:
  "k \<le> length out \<Longrightarrow> fold (\<lambda>i out. out[i := f i]) [0..<k] out = map f [0..<k] @ drop k out"
proof (induction k)
  case 0
  then show ?case by simp
next
  case (Suc k)
  then have k: "k < length out" by simp
  have "fold (\<lambda>i out. out[i := f i]) [0..<Suc k] out = (map f [0..<k] @ drop k out)[k := f k]"
    using Suc by simp
  also have "\<dots> = map f [0..<k] @ (drop k out)[0 := f k]"
    by (simp add: list_update_append)
  also have "drop k out = out ! k # drop (Suc k) out"
    using k by (simp add: Cons_nth_drop_Suc)
  finally show ?case by simp
qed

lemma unpack_vector_bool_eq:
  assumes "m = length out_vec mod 2 ^ 32"
    and "m div 32 + (if m mod 32 \<noteq> 0 then 1 else 0) = length in_vec"
  shows "unpack_vector_bool in_vec out_vec =
           Inr (map (\<lambda>i. bit (in_vec ! (i div 32)) (i mod 32)) [0..<m] @ drop m out_vec)"
proof -
  have le: "m \<le> length out_vec"
    unfolding assms(1) by (rule mod_less_eq_dividend)
  show ?thesis
    unfolding unpack_vector_bool_def Let_def data_bits_eq assms(1) [symmetric]
    using assms(2) le by (simp add: fold_update_map extract_bit_iff)
qed

lemma bit_shifted_flag:
  "bit (push_bit m (if c then 1 else 0 :: unsigned_int)) j \<longleftrightarrow> c \<and> j = m \<and> m < 32"
  by (auto simp add: bit_simps)

lemma word_add_flag_bit:
  fixes a :: unsigned_int
  assumes "\<not> bit a m"
  shows "bit (a + push_bit m (if c then 1 else 0)) j \<longleftrightarrow> bit a j \<or> (c \<and> j = m \<and> m < 32)"
proof -
  have "a + push_bit m (if c then 1 else 0) = a OR push_bit m (if c then 1 else 0)"
    by (rule disjunctive_add_eq_or, rule bit_eqI) (use assms in \<open>auto simp add: bit_simps\<close>)
  then show ?thesis
    by (simp add: bit_or_iff bit_shifted_flag)
qed

lemma split_index: "j < 32 \<Longrightarrow> 32 * w + j = k \<Longrightarrow> w = k div 32 \<and> j = k mod (32::nat)"
  by auto

lemma other_offset: "w = k div 32 \<Longrightarrow> 32 * w + j \<noteq> k \<Longrightarrow> j \<noteq> k mod (32::nat)"
  by auto

lemma word_index_bound: "k < m \<Longrightarrow> m \<le> 32 * n \<Longrightarrow> k div 32 < (n::nat)"
  by (simp add: less_mult_imp_div_less mult.commute)

lemma words_cover: "m \<le> 32 * (m div 32 + (if m mod 32 \<noteq> 0 then 1 else 0))" for m :: nat
  by (simp add: div_mult_mod_eq [symmetric] del: div_mult_mod_eq) presburger

lemma pack_loop_invariant:
  fixes bs :: "bool list"
  defines "step \<equiv> \<lambda>i out. out[i div 32 := out ! (i div 32)
                       + push_bit (i mod 32) (if bs ! i then 1 else 0 :: unsigned_int)]"
  assumes "k \<le> m" and "m \<le> 32 * n"
  shows "length (fold step [0..<k] (replicate n 0)) = n \<and>
         (\<forall>w<n. \<forall>j<32. bit (fold step [0..<k] (replicate n 0) ! w) j
                          \<longleftrightarrow> 32 * w + j < k \<and> bs ! (32 * w + j))"
  using assms(2)
proof (induction k)
  case 0
  then show ?case by simp
next
  case (Suc k)
  define out where "out = fold step [0..<k] (replicate n 0)"
  have len: "length out = n"
    and bits: "\<And>w j. w < n \<Longrightarrow> j < 32 \<Longrightarrow> bit (out ! w) j \<longleftrightarrow> 32 * w + j < k \<and> bs ! (32 * w + j)"
    using Suc by (simp_all add: out_def)
  have idx: "k div 32 < n"
    using Suc.prems assms(3) by (simp add: word_index_bound)
  have clear: "\<not> bit (out ! (k div 32)) (k mod 32)"
    using bits [OF idx, of "k mod 32"] by simp
  have unroll: "fold step [0..<Suc k] (replicate n 0) = step k out"
    by (simp add: out_def)
  have "bit (step k out ! w) j \<longleftrightarrow> 32 * w + j < Suc k \<and> bs ! (32 * w + j)"
    if "w < n" and "j < 32" for w j
  proof (cases "32 * w + j = k")
    case True
    then have w: "w = k div 32" and j: "j = k mod 32"
      using that(2) split_index by blast+
    have "bit (step k out ! w) j \<longleftrightarrow> bit (out ! w) j \<or> bs ! k"
      using idx len word_add_flag_bit [OF clear, of "bs ! k" j] that(2)
      by (simp add: step_def w j)
    moreover have "\<not> bit (out ! w) j"
      using clear by (simp add: w j)
    ultimately show ?thesis
      by (simp add: True)
  next
    case False
    have "bit (step k out ! w) j \<longleftrightarrow> bit (out ! w) j"
    proof (cases "w = k div 32")
      case True
      then have "j \<noteq> k mod 32"
        using False other_offset by blast
      then show ?thesis
        using idx len word_add_flag_bit [OF clear, of "bs ! k" j]
        by (simp add: step_def True)
    next
      case False
      then show ?thesis by (simp add: step_def)
    qed
    moreover have "32 * w + j < Suc k \<longleftrightarrow> 32 * w + j < k"
      using False by linarith
    ultimately show ?thesis
      using bits [OF that] by simp
  qed
  moreover have "length (step k out) = n"
    by (simp add: step_def len)
  ultimately show ?case
    unfolding unroll by blast
qed

lemma length_pack_vector_bool:
  assumes "m = length bs mod 2 ^ 32"
  shows "length (pack_vector_bool bs) = m div 32 + (if m mod 32 \<noteq> 0 then 1 else 0)"
  using pack_loop_invariant [where k = m and m = m and bs = bs, OF order_refl words_cover]
  unfolding pack_vector_bool_def Let_def data_bits_eq assms [symmetric] by blast

lemma bit_pack_vector_bool:
  assumes "m = length bs mod 2 ^ 32" and "i < m"
  shows "bit (pack_vector_bool bs ! (i div 32)) (i mod 32) \<longleftrightarrow> bs ! i"
proof -
  have "i div 32 < m div 32 + (if m mod 32 \<noteq> 0 then 1 else 0)"
    using assms(2) words_cover [of m] by (rule word_index_bound)
  then show ?thesis
    using pack_loop_invariant [where k = m and m = m and bs = bs, OF order_refl words_cover] assms(2)
    unfolding pack_vector_bool_def Let_def data_bits_eq assms(1) [symmetric] by simp
qed

lemma size_below_range: "n < 2 ^ 32 \<Longrightarrow> n mod 2 ^ 32 = n" for n :: nat
  by simp

lemma pack_unpack_prefix:
  assumes "length out_vec = length bs" and "m = length bs mod 2 ^ 32"
  shows "unpack_vector_bool (pack_vector_bool bs) out_vec = Inr (take m bs @ drop m out_vec)"
proof -
  have le: "m \<le> length bs"
    unfolding assms(2) by (rule mod_less_eq_dividend)
  have "unpack_vector_bool (pack_vector_bool bs) out_vec =
          Inr (map (\<lambda>i. bit (pack_vector_bool bs ! (i div 32)) (i mod 32)) [0..<m] @ drop m out_vec)"
    using assms(2) [folded assms(1)] length_pack_vector_bool [OF assms(2), symmetric]
    by (rule unpack_vector_bool_eq)
  also have "map (\<lambda>i. bit (pack_vector_bool bs ! (i div 32)) (i mod 32)) [0..<m] = take m bs"
    using le by (intro nth_equalityI) (simp_all add: bit_pack_vector_bool [OF assms(2)])
  finally show ?thesis .
qed

lemma prefix_of_replicate: "k \<le> n \<Longrightarrow> take k (replicate n x) = replicate k x"
  by simp

lemma rest_of_replicate: "drop k (replicate n x) = replicate (n - k) x"
  by simp

text \<open>
  C1. Packing a boolean sequence of fewer than \<open>2 ^ 32\<close> entries with \<open>pack_vector_bool\<close> and
  unpacking the words with \<open>unpack_vector_bool\<close> into a vector of the original length gives
  back the original sequence, whatever the output vector held before. The bound is the
  range of the \<open>unsigned int\<close> in which both functions keep the size.
\<close>

theorem pack_unpack_roundtrip:
  "length bs < 2 ^ 32 \<Longrightarrow> length out_vec = length bs
   \<Longrightarrow> unpack_vector_bool (pack_vector_bool bs) out_vec = Inr bs"
proof -
  assume small: "length bs < 2 ^ 32" and len: "length out_vec = length bs"
  have "unpack_vector_bool (pack_vector_bool bs) out_vec
          = Inr (take (length bs) bs @ drop (length bs) out_vec)"
    using len size_below_range [OF small, symmetric] by (rule pack_unpack_prefix)
  then show ?thesis
    by (simp add: len)
qed

theorem pack_unpack_roundtrip_witness:
  "unpack_vector_bool (pack_vector_bool [True, False, True]) [False, False, False]
     = Inr [True, False, True]"
  using pack_unpack_roundtrip [of "[True, False, True]" "[False, False, False]"] by simp

text \<open>
  C1 read for a sequence of any length at all fails from \<open>2 ^ 32\<close> entries on.
  Of \<open>2 ^ 32 + 3\<close> entries that are all true, \<open>pack_vector_bool\<close> packs the first three, into
  one word; \<open>unpack_vector_bool\<close> writes three entries of the output and leaves the others
  as they were.
\<close>

theorem roundtrip_lost_beyond_unsigned_int:
  "unpack_vector_bool (pack_vector_bool (replicate 4294967299 True)) (replicate 4294967299 False)
     = Inr (replicate 3 True @ replicate 4294967296 False)
   \<and> unpack_vector_bool (pack_vector_bool (replicate 4294967299 True)) (replicate 4294967299 False)
     \<noteq> Inr (replicate 4294967299 True)"
proof -
  have m: "(3::nat) = length (replicate 4294967299 True) mod 2 ^ 32"
    by simp
  have res: "unpack_vector_bool (pack_vector_bool (replicate 4294967299 True)) (replicate 4294967299 False)
     = Inr (replicate 3 True @ replicate 4294967296 False)"
    unfolding pack_unpack_prefix [of "replicate 4294967299 False" "replicate 4294967299 True" 3, OF _ m, simplified]
    by (simp add: prefix_of_replicate rest_of_replicate)
  have "(replicate 3 True @ replicate 4294967296 False) ! 3 \<noteq> replicate 4294967299 True ! 3"
    by (simp add: nth_append)
  then have "replicate 3 True @ replicate 4294967296 False \<noteq> replicate 4294967299 True"
    by metis
  then show ?thesis
    unfolding res by simp
qed

text \<open>
  C10. \<open>unpack_vector_bool\<close> never resizes its output. It keeps \<open>out.size()\<close> in an
  \<open>unsigned int\<close>, that is modulo \<open>2 ^ 32\<close>, and the caller must have sized the output so
  that the number of words this size needs, the size divided by the word width and
  rounded up, is the number of input words: otherwise the assertion fails. When it holds,
  the call returns an output of the same length in which each of the entries below that
  size has been written with its extracted bit and the entries from that size on are
  untouched; an extracted bit is 0 or 1 at every offset below the word width. For an
  output of fewer than \<open>2 ^ 32\<close> entries the size is \<open>out.size()\<close> itself, and every entry
  is written.
\<close>

theorem unpack_vector_bool_presized:
  "(length out_vec mod 2 ^ 32 div data_bits
      + (if length out_vec mod 2 ^ 32 mod data_bits \<noteq> 0 then 1 else 0) \<noteq> length in_vec
      \<longrightarrow> unpack_vector_bool in_vec out_vec = Inl AssertionFailed)
   \<and> (length out_vec mod 2 ^ 32 div data_bits
      + (if length out_vec mod 2 ^ 32 mod data_bits \<noteq> 0 then 1 else 0) = length in_vec
      \<longrightarrow> (\<exists>out'. unpack_vector_bool in_vec out_vec = Inr out'
             \<and> length out' = length out_vec
             \<and> (\<forall>i<length out_vec mod 2 ^ 32.
                   out' ! i = (extract_bit (in_vec ! (i div data_bits)) (i mod data_bits) = 1))
             \<and> (\<forall>i<length out_vec. length out_vec mod 2 ^ 32 \<le> i \<longrightarrow> out' ! i = out_vec ! i)))
   \<and> (length out_vec < 2 ^ 32 \<longrightarrow> length out_vec mod 2 ^ 32 = length out_vec)
   \<and> (offset < data_bits \<longrightarrow> extract_bit w offset = 0 \<or> extract_bit w offset = 1)"
proof (intro conjI impI)
  assume "length out_vec mod 2 ^ 32 div data_bits
            + (if length out_vec mod 2 ^ 32 mod data_bits \<noteq> 0 then 1 else 0) \<noteq> length in_vec"
  then show "unpack_vector_bool in_vec out_vec = Inl AssertionFailed"
    by (simp add: unpack_vector_bool_def)
next
  define m where "m = length out_vec mod 2 ^ 32"
  assume "length out_vec mod 2 ^ 32 div data_bits
            + (if length out_vec mod 2 ^ 32 mod data_bits \<noteq> 0 then 1 else 0) = length in_vec"
  then have sized: "m div 32 + (if m mod 32 \<noteq> 0 then 1 else 0) = length in_vec"
    unfolding m_def data_bits_eq .
  have le: "m \<le> length out_vec"
    unfolding m_def by (rule mod_less_eq_dividend)
  let ?out = "map (\<lambda>i. bit (in_vec ! (i div 32)) (i mod 32)) [0..<m] @ drop m out_vec"
  have res: "unpack_vector_bool in_vec out_vec = Inr ?out"
    using m_def sized by (rule unpack_vector_bool_eq)
  have len: "length ?out = length out_vec"
    using le by simp
  have written: "?out ! i = (extract_bit (in_vec ! (i div data_bits)) (i mod data_bits) = 1)"
    if "i < m" for i
    using that extract_bit_iff [of "i mod 32" "in_vec ! (i div 32)"]
      extract_bit_cases [of "in_vec ! (i div 32)" "i mod 32"]
    by (auto simp add: data_bits_eq nth_append)
  have kept: "?out ! i = out_vec ! i" if "i < length out_vec" and "m \<le> i" for i
    using that by (simp add: nth_append)
  show "\<exists>out'. unpack_vector_bool in_vec out_vec = Inr out'
             \<and> length out' = length out_vec
             \<and> (\<forall>i<length out_vec mod 2 ^ 32.
                   out' ! i = (extract_bit (in_vec ! (i div data_bits)) (i mod data_bits) = 1))
             \<and> (\<forall>i<length out_vec. length out_vec mod 2 ^ 32 \<le> i \<longrightarrow> out' ! i = out_vec ! i)"
    unfolding m_def [symmetric] using res len written kept by blast
next
  assume "length out_vec < 2 ^ 32"
  then show "length out_vec mod 2 ^ 32 = length out_vec"
    by (rule size_below_range)
next
  show "extract_bit w offset = 0 \<or> extract_bit w offset = 1"
    by (rule extract_bit_cases)
qed

theorem unpack_vector_bool_presized_witness:
  "unpack_vector_bool [] [False] = Inl AssertionFailed
   \<and> (\<exists>out'. unpack_vector_bool [5] [False, False, False] = Inr out'
         \<and> length out' = length [False, False, False]
         \<and> out' ! 0 = (extract_bit 5 0 = 1))
   \<and> (extract_bit 5 2 = 0 \<or> extract_bit 5 2 = 1)"
proof -
  have "unpack_vector_bool [] [False] = Inl AssertionFailed"
    using unpack_vector_bool_presized [of "[False]" "[]"] by (simp add: data_bits_eq)
  moreover have "\<exists>out'. unpack_vector_bool [5] [False, False, False] = Inr out'
         \<and> length out' = length [False, False, False]
         \<and> out' ! 0 = (extract_bit 5 0 = 1)"
    using unpack_vector_bool_presized [of "[False, False, False]" "[5]" 0 0]
    by (auto simp add: data_bits_eq)
  moreover have "extract_bit 5 2 = 0 \<or> extract_bit 5 2 = 1"
    using unpack_vector_bool_presized [of _ _ 2 5] by (simp add: data_bits_eq)
  ultimately show ?thesis by blast
qed

text \<open>
  C10 read with \<open>out.size()\<close> itself fails from \<open>2 ^ 32\<close> entries on. With one input word and an output
  of \<open>2 ^ 32 + 3\<close> entries, which needs 134217729 words, the assertion holds all the same:
  three entries are written, from the bits of the word, and the call returns.
\<close>

theorem unpack_passes_beyond_unsigned_int:
  "unpack_vector_bool [5] (replicate 4294967299 False)
     = Inr ([True, False, True] @ replicate 4294967296 False)
   \<and> (4294967299 + data_bits - 1) div data_bits \<noteq> length [5 :: unsigned_int]"
proof -
  have m: "(3::nat) = length (replicate 4294967299 False) mod 2 ^ 32"
    by simp
  have sized: "(3::nat) div 32 + (if (3::nat) mod 32 \<noteq> 0 then 1 else 0) = length [5 :: unsigned_int]"
    by simp
  have bits: "map (\<lambda>i. bit ([5 :: unsigned_int] ! (i div 32)) (i mod 32)) [0..<3] = [True, False, True]"
    by (simp add: upt_rec numeral_3_eq_3 bit_numeral_word_iff)
  show ?thesis
    unfolding unpack_vector_bool_eq [OF m sized] bits
    by (simp add: rest_of_replicate data_bits_eq)
qed

subsection \<open>Computations and reductions\<close>

lemma bind_par_Inl: "bind_par (Inl e) f = Inl e"
  by (simp add: bind_par_def)

lemma bind_par_Inr:
  "bind_par (Inr (calls, x)) f =
     (case f x of Inl e \<Rightarrow> Inl e | Inr (calls', y) \<Rightarrow> Inr (calls @ calls', y))"
  by (simp add: bind_par_def)

lemma length_foldl_map2:
  "\<forall>c\<in>set bs. length c = length b \<Longrightarrow> length (foldl (\<lambda>acc c. map2 f acc c) b bs) = length b"
  by (induction bs arbitrary: b) simp_all

lemma nth_foldl_map2:
  "\<forall>c\<in>set bs. length c = length b \<Longrightarrow> i < length b \<Longrightarrow>
   foldl (\<lambda>acc c. map2 f acc c) b bs ! i = foldl f (b ! i) (map (\<lambda>c. c ! i) bs)"
  by (induction bs arbitrary: b) simp_all

lemma bit_foldl_and:
  "bit (foldl (AND) a ws) j \<longleftrightarrow> bit a j \<and> (\<forall>w\<in>set ws. bit w j)" for a :: unsigned_int
  by (induction ws arbitrary: a) (auto simp add: bit_and_iff)

lemma bit_foldl_or:
  "bit (foldl (OR) a ws) j \<longleftrightarrow> bit a j \<or> (\<exists>w\<in>set ws. bit w j)" for a :: unsigned_int
  by (induction ws arbitrary: a) (auto simp add: bit_or_iff)

lemma on_each_process_replicate:
  "on_each_process (replicate n (Inr v)) = Inr ([], replicate n v)"
  by (induction n) simp_all

lemma map2_replicate_left:
  "map2 f (replicate (length ys) x) ys = map (f x) ys"
  by (induction ys) simp_all

lemma Min_bool_iff: "finite S \<Longrightarrow> S \<noteq> {} \<Longrightarrow> Min S \<longleftrightarrow> (\<forall>x\<in>S. x)" for S :: "bool set"
  by (metis Min_in Min_le le_boolD)

lemma Max_bool_iff: "finite S \<Longrightarrow> S \<noteq> {} \<Longrightarrow> Max S \<longleftrightarrow> (\<exists>x\<in>S. x)" for S :: "bool set"
  by (metis Max_in Max_ge le_boolD)

lemma on_each_process_returns: "on_each_process (map (\<lambda>r. Inr (f r)) rs) = Inr ([], map f rs)"
  by (induction rs) simp_all

lemma packed_lengths:
  assumes "\<forall>r\<in>set (b # bs). length r = n" and "m = n mod 2 ^ 32"
  shows "\<forall>c\<in>set (map pack_vector_bool (b # bs)).
           length c = m div 32 + (if m mod 32 \<noteq> 0 then 1 else 0)"
proof
  fix c
  assume "c \<in> set (map pack_vector_bool (b # bs))"
  then obtain r where r: "r \<in> set (b # bs)" and c: "c = pack_vector_bool r"
    by auto
  have "m = length r mod 2 ^ 32"
    using assms r by auto
  then show "length c = m div 32 + (if m mod 32 \<noteq> 0 then 1 else 0)"
    unfolding c by (rule length_pack_vector_bool)
qed

lemma packed_bits:
  assumes "\<forall>r\<in>set (b # bs). length r = n" and "m = n mod 2 ^ 32" and "i < m"
    and "r \<in> set (b # bs)"
  shows "bit (pack_vector_bool r ! (i div 32)) (i mod 32) \<longleftrightarrow> r ! i"
proof -
  have "m = length r mod 2 ^ 32"
    using assms(1,2,4) by auto
  then show ?thesis
    using assms(3) by (rule bit_pack_vector_bool)
qed

lemma reduced_word:
  assumes "\<forall>r\<in>set (b # bs). length r = n" and "m = n mod 2 ^ 32" and "i < m"
  shows "foldl (\<lambda>acc c. map2 f acc c) (pack_vector_bool b) (map pack_vector_bool bs) ! (i div 32)
           = foldl f (pack_vector_bool b ! (i div 32)) (map (\<lambda>r. pack_vector_bool r ! (i div 32)) bs)"
proof -
  let ?W = "m div 32 + (if m mod 32 \<noteq> 0 then 1 else 0)"
  have all: "\<forall>c\<in>set (map pack_vector_bool (b # bs)). length c = ?W"
    using assms(1,2) by (rule packed_lengths)
  then have lb: "length (pack_vector_bool b) = ?W"
    by simp
  have lens: "\<forall>c\<in>set (map pack_vector_bool bs). length c = length (pack_vector_bool b)"
    unfolding lb using all by simp
  have w: "i div 32 < length (pack_vector_bool b)"
    unfolding lb using assms(3) words_cover [of m] by (rule word_index_bound)
  show ?thesis
    unfolding nth_foldl_map2 [OF lens w] by (simp add: o_def)
qed

lemma reduce_packed_and:
  assumes "\<forall>r\<in>set (b # bs). length r = n" and "m = n mod 2 ^ 32" and "i < m"
  shows "bit (foldl (\<lambda>acc c. map2 (AND) acc c) (pack_vector_bool b) (map pack_vector_bool bs) ! (i div 32)) (i mod 32)
         \<longleftrightarrow> (\<forall>r\<in>set (b # bs). r ! i)"
  unfolding reduced_word [OF assms] bit_foldl_and
  using packed_bits [OF assms] by simp

lemma reduce_packed_or:
  assumes "\<forall>r\<in>set (b # bs). length r = n" and "m = n mod 2 ^ 32" and "i < m"
  shows "bit (foldl (\<lambda>acc c. map2 (OR) acc c) (pack_vector_bool b) (map pack_vector_bool bs) ! (i div 32)) (i mod 32)
         \<longleftrightarrow> (\<exists>r\<in>set (b # bs). r ! i)"
  unfolding reduced_word [OF assms] bit_foldl_or
  using packed_bits [OF assms] by simp

lemma allreduce_packed:
  assumes "\<forall>r\<in>set (b # bs). length r = n" and "m = n mod 2 ^ 32"
  shows "MPI_Allreduce f (map pack_vector_bool (b # bs))
           = Inr ([Call_Allreduce (m div 32 + (if m mod 32 \<noteq> 0 then 1 else 0))],
                  replicate (length (b # bs))
                    (foldl (\<lambda>acc c. map2 f acc c) (pack_vector_bool b) (map pack_vector_bool bs)))"
proof -
  let ?W = "m div 32 + (if m mod 32 \<noteq> 0 then 1 else 0)"
  have all: "\<forall>c\<in>set (map pack_vector_bool (b # bs)). length c = ?W"
    using assms by (rule packed_lengths)
  then have lb: "length (pack_vector_bool b) = ?W"
    by simp
  have lens: "list_all (\<lambda>c. length c = ?W) (map pack_vector_bool bs)"
    unfolding list_all_iff using all by simp
  show ?thesis
    unfolding MPI_Allreduce_def list.map list.case lb
    by (simp only: lens if_True list.size length_map)
qed

lemma unpack_reduced:
  assumes "\<forall>r\<in>set (b # bs). length r = n" and "m = n mod 2 ^ 32"
  shows "on_each_process (map2 unpack_vector_bool
           (replicate (length (b # bs)) (foldl (\<lambda>acc c. map2 f acc c) (pack_vector_bool b) (map pack_vector_bool bs)))
           (b # bs))
         = Inr ([], map (\<lambda>r. map (\<lambda>i. bit (foldl (\<lambda>acc c. map2 f acc c) (pack_vector_bool b) (map pack_vector_bool bs) ! (i div 32)) (i mod 32)) [0..<m]
                              @ drop m r) (b # bs))"
proof -
  let ?red = "foldl (\<lambda>acc c. map2 f acc c) (pack_vector_bool b) (map pack_vector_bool bs)"
  let ?W = "m div 32 + (if m mod 32 \<noteq> 0 then 1 else 0)"
  have all: "\<forall>c\<in>set (map pack_vector_bool (b # bs)). length c = ?W"
    using assms by (rule packed_lengths)
  then have lb: "length (pack_vector_bool b) = ?W"
    by simp
  have lens: "\<forall>c\<in>set (map pack_vector_bool bs). length c = length (pack_vector_bool b)"
    unfolding lb using all by simp
  have len: "?W = length ?red"
    unfolding length_foldl_map2 [OF lens] lb ..
  have each: "unpack_vector_bool ?red r = Inr (map (\<lambda>i. bit (?red ! (i div 32)) (i mod 32)) [0..<m] @ drop m r)"
    if "r \<in> set (b # bs)" for r
  proof -
    have "m = length r mod 2 ^ 32"
      using assms that by auto
    then show ?thesis
      using len by (rule unpack_vector_bool_eq)
  qed
  have "map2 unpack_vector_bool (replicate (length (b # bs)) ?red) (b # bs)
        = map (unpack_vector_bool ?red) (b # bs)"
    by (rule map2_replicate_left)
  also have "\<dots> = map (\<lambda>r. Inr (map (\<lambda>i. bit (?red ! (i div 32)) (i mod 32)) [0..<m] @ drop m r)) (b # bs)"
    using each by (intro map_cong refl)
  finally show ?thesis
    by (simp only: on_each_process_returns)
qed

lemma min_vector_bool_many:
  assumes "\<forall>r\<in>set (b # bs). length r = n" and "m = n mod 2 ^ 32" and "bs \<noteq> []"
  shows "min_vector_bool (b # bs) =
           Inr ([Call_Allreduce (m div 32 + (if m mod 32 \<noteq> 0 then 1 else 0))],
                map (\<lambda>r. map (\<lambda>i. \<forall>r\<in>set (b # bs). r ! i) [0..<m] @ drop m r) (b # bs))"
proof -
  have many: "length (b # bs) > 1"
    using assms(3) by (cases bs) simp_all
  have bits: "map (\<lambda>i. bit (foldl (\<lambda>acc c. map2 (AND) acc c) (pack_vector_bool b) (map pack_vector_bool bs) ! (i div 32)) (i mod 32)) [0..<m]
              = map (\<lambda>i. \<forall>r\<in>set (b # bs). r ! i) [0..<m]"
    using reduce_packed_and [OF assms(1,2)] by (intro map_cong refl) simp
  show ?thesis
    unfolding min_vector_bool_def Let_def if_P [OF many] allreduce_packed [OF assms(1,2)]
      bind_par_Inr unpack_reduced [OF assms(1,2)] bits
    by simp
qed

lemma max_vector_bool_many:
  assumes "\<forall>r\<in>set (b # bs). length r = n" and "m = n mod 2 ^ 32" and "bs \<noteq> []"
  shows "max_vector_bool (b # bs) =
           Inr ([Call_Allreduce (m div 32 + (if m mod 32 \<noteq> 0 then 1 else 0))],
                map (\<lambda>r. map (\<lambda>i. \<exists>r\<in>set (b # bs). r ! i) [0..<m] @ drop m r) (b # bs))"
proof -
  have many: "length (b # bs) > 1"
    using assms(3) by (cases bs) simp_all
  have bits: "map (\<lambda>i. bit (foldl (\<lambda>acc c. map2 (OR) acc c) (pack_vector_bool b) (map pack_vector_bool bs) ! (i div 32)) (i mod 32)) [0..<m]
              = map (\<lambda>i. \<exists>r\<in>set (b # bs). r ! i) [0..<m]"
    using reduce_packed_or [OF assms(1,2)] by (intro map_cong refl) simp
  show ?thesis
    unfolding max_vector_bool_def Let_def if_P [OF many] allreduce_packed [OF assms(1,2)]
      bind_par_Inr unpack_reduced [OF assms(1,2)] bits
    by simp
qed

lemma whole_vector_replaced:
  assumes "\<forall>r\<in>set rs. length r = n"
  shows "map (\<lambda>r. v @ drop n r) rs = replicate (length rs) v"
proof -
  have "map (\<lambda>r. v @ drop n r) rs = map (\<lambda>r. v) rs"
    using assms by (intro map_cong refl) simp
  then show ?thesis
    by (simp only: map_replicate_const)
qed

lemma unpack_combined:
  assumes "n < 2 ^ 32" and "length a = n" and "length b = n" and "length out_vec = n"
    and "\<And>x y j. bit (f x y) j \<longleftrightarrow> g (bit x j) (bit y j)"
  shows "unpack_vector_bool (map2 f (pack_vector_bool a) (pack_vector_bool b)) out_vec
           = Inr (map2 g a b)"
proof -
  let ?words = "map2 f (pack_vector_bool a) (pack_vector_bool b)"
  have ma: "n = length a mod 2 ^ 32" and mb: "n = length b mod 2 ^ 32"
    and mo: "n = length out_vec mod 2 ^ 32"
    unfolding assms(2-4) using size_below_range [OF assms(1)] by simp_all
  have la: "length (pack_vector_bool a) = n div 32 + (if n mod 32 \<noteq> 0 then 1 else 0)"
    using ma by (rule length_pack_vector_bool)
  have lb: "length (pack_vector_bool b) = n div 32 + (if n mod 32 \<noteq> 0 then 1 else 0)"
    using mb by (rule length_pack_vector_bool)
  have len: "n div 32 + (if n mod 32 \<noteq> 0 then 1 else 0) = length ?words"
    unfolding length_map length_zip la lb by (rule min.idem [symmetric])
  have "unpack_vector_bool ?words out_vec
          = Inr (map (\<lambda>i. bit (?words ! (i div 32)) (i mod 32)) [0..<n] @ drop n out_vec)"
    using mo len by (rule unpack_vector_bool_eq)
  moreover have "map (\<lambda>i. bit (?words ! (i div 32)) (i mod 32)) [0..<n] = map2 g a b"
  proof (rule nth_equalityI)
    show "length (map (\<lambda>i. bit (?words ! (i div 32)) (i mod 32)) [0..<n])
            = length (map2 g a b)"
      using assms(2-4) by simp
  next
    fix i
    assume "i < length (map (\<lambda>i. bit (?words ! (i div 32)) (i mod 32)) [0..<n])"
    then have i: "i < n" by simp
    then have w: "i div 32 < n div 32 + (if n mod 32 \<noteq> 0 then 1 else 0)"
      using words_cover [of n] by (rule word_index_bound)
    have "?words ! (i div 32) = f (pack_vector_bool a ! (i div 32)) (pack_vector_bool b ! (i div 32))"
      using w by (intro nth_map [THEN trans]) (simp_all only: length_zip la lb min.idem nth_zip split_conv)
    then have "bit (?words ! (i div 32)) (i mod 32) \<longleftrightarrow> g (a ! i) (b ! i)"
      using i by (simp add: assms(5) bit_pack_vector_bool [OF ma] bit_pack_vector_bool [OF mb])
    then show "map (\<lambda>i. bit (?words ! (i div 32)) (i mod 32)) [0..<n] ! i = map2 g a b ! i"
      using i assms(2-4) by simp
  qed
  ultimately show ?thesis
    using assms(4) by simp
qed

lemma bool_min_max: "min x y = (x \<and> y)" "max x y = (x \<or> y)" for x y :: bool
  by (auto simp add: min_def max_def)

lemma unpack_and_or:
  assumes "n < 2 ^ 32" and "length a = n" and "length b = n" and "length out_vec = n"
  shows "unpack_vector_bool (map2 (AND) (pack_vector_bool a) (pack_vector_bool b)) out_vec
           = Inr (map2 min a b)"
    and "unpack_vector_bool (map2 (OR) (pack_vector_bool a) (pack_vector_bool b)) out_vec
           = Inr (map2 max a b)"
  using unpack_combined [OF assms, of "(AND)" min] unpack_combined [OF assms, of "(OR)" max]
  by (simp_all add: bit_and_iff bit_or_iff bool_min_max)

text \<open>
  C4. For boolean sequences of fewer than \<open>2 ^ 32\<close> entries: the word-wise AND (OR) of the
  packed encodings of two sequences of one length, unpacked, is their element-wise minimum
  (maximum). For vectors of booleans of one such length on all processes, \<open>min\<close> is one
  reduction over the packed words, with the bitwise AND, and \<open>max\<close> one with the bitwise
  OR; after unpacking, every process holds at each position the minimum (the maximum) over
  all processes of the booleans at that position.
\<close>

theorem min_max_vector_bool:
  assumes "rs \<noteq> []" and "\<forall>r\<in>set rs. length r = n" and "n < 2 ^ 32"
    and "length a = n" and "length b = n" and "length out_vec = n"
  shows "unpack_vector_bool (map2 (AND) (pack_vector_bool a) (pack_vector_bool b)) out_vec
           = Inr (map2 min a b)
       \<and> unpack_vector_bool (map2 (OR) (pack_vector_bool a) (pack_vector_bool b)) out_vec
           = Inr (map2 max a b)
       \<and> min_vector_bool rs =
           Inr (if n_processors rs > 1
                then [Call_Allreduce (n div data_bits + (if n mod data_bits \<noteq> 0 then 1 else 0))]
                else [],
                replicate (n_processors rs) (map (\<lambda>i. Min ((\<lambda>r. r ! i) ` set rs)) [0..<n]))
       \<and> max_vector_bool rs =
           Inr (if n_processors rs > 1
                then [Call_Allreduce (n div data_bits + (if n mod data_bits \<noteq> 0 then 1 else 0))]
                else [],
                replicate (n_processors rs) (map (\<lambda>i. Max ((\<lambda>r. r ! i) ` set rs)) [0..<n]))"
proof -
  obtain c cs where rs: "rs = c # cs"
    using assms(1) by (cases rs) auto
  have m: "n = n mod 2 ^ 32"
    using size_below_range [OF assms(3)] by simp
  have mn: "Min ((\<lambda>r. r ! i) ` set rs) \<longleftrightarrow> (\<forall>r\<in>set rs. r ! i)" for i
    using assms(1) by (simp add: Min_bool_iff)
  have mx: "Max ((\<lambda>r. r ! i) ` set rs) \<longleftrightarrow> (\<exists>r\<in>set rs. r ! i)" for i
    using assms(1) by (simp add: Max_bool_iff)
  have world: "min_vector_bool rs =
           Inr (if n_processors rs > 1
                then [Call_Allreduce (n div data_bits + (if n mod data_bits \<noteq> 0 then 1 else 0))]
                else [],
                replicate (n_processors rs) (map (\<lambda>i. Min ((\<lambda>r. r ! i) ` set rs)) [0..<n]))
       \<and> max_vector_bool rs =
           Inr (if n_processors rs > 1
                then [Call_Allreduce (n div data_bits + (if n mod data_bits \<noteq> 0 then 1 else 0))]
                else [],
                replicate (n_processors rs) (map (\<lambda>i. Max ((\<lambda>r. r ! i) ` set rs)) [0..<n]))"
  proof (cases "cs = []")
    case True
    then have "map (\<lambda>i. c ! i) [0..<n] = c"
      using assms(2) rs by (auto simp add: map_nth)
    then show ?thesis
      using True rs by (simp add: min_vector_bool_def max_vector_bool_def return_par_def)
  next
    case False
    then have "length rs > 1"
      using rs by (cases cs) simp_all
    then show ?thesis
      using min_vector_bool_many [OF assms(2) [unfolded rs] m False]
        max_vector_bool_many [OF assms(2) [unfolded rs] m False]
      unfolding mn mx whole_vector_replaced [OF assms(2) [unfolded rs]]
      by (simp add: rs data_bits_eq)
  qed
  show ?thesis
    using unpack_and_or [OF assms(3-6)] world by (simp only: simp_thms)
qed

theorem min_max_vector_bool_witness:
  "unpack_vector_bool (map2 (AND) (pack_vector_bool [True, False, True])
                                  (pack_vector_bool [True, True, False])) [False, False, False]
     = Inr (map2 min [True, False, True] [True, True, False])
   \<and> min_vector_bool [[True, False, True], [True, True, False]]
     = Inr ([Call_Allreduce 1], [[True, False, False], [True, False, False]])
   \<and> max_vector_bool [[True, False, True], [True, True, False]]
     = Inr ([Call_Allreduce 1], [[True, True, True], [True, True, True]])"
proof -
  have small: "(3::nat) < 2 ^ 32"
    by simp
  show ?thesis
    using min_max_vector_bool [of "[[True, False, True], [True, True, False]]" 3
        "[True, False, True]" "[True, True, False]" "[False, False, False]", OF _ _ small]
    by (simp add: data_bits_eq upt_rec numeral_2_eq_2)
qed

text \<open>
  C4 read for a vector of any length at all fails from \<open>2 ^ 32\<close> entries on.
  With \<open>2 ^ 32 + 3\<close> entries, all true on the first process and all false on the second,
  one word is reduced and three entries are unpacked: the first process keeps true, which
  is not the minimum, in all the others.
\<close>

theorem min_vector_bool_beyond_unsigned_int:
  "min_vector_bool [replicate 4294967299 True, replicate 4294967299 False]
     = Inr ([Call_Allreduce 1],
            [replicate 3 False @ replicate 4294967296 True,
             replicate 3 False @ replicate 4294967296 False])
   \<and> replicate 3 False @ replicate 4294967296 True
     \<noteq> map2 min (replicate 4294967299 True) (replicate 4294967299 False)"
proof -
  have lens: "\<forall>r\<in>set [replicate 4294967299 True, replicate 4294967299 False]. length r = 4294967299"
    by simp
  have m: "(3::nat) = 4294967299 mod 2 ^ 32"
    by simp
  have words: "(3::nat) div 32 + (if (3::nat) mod 32 \<noteq> 0 then 1 else 0) = 1"
    by simp
  have res: "min_vector_bool [replicate 4294967299 True, replicate 4294967299 False]
     = Inr ([Call_Allreduce 1],
            [replicate 3 False @ replicate 4294967296 True,
             replicate 3 False @ replicate 4294967296 False])"
    unfolding min_vector_bool_many [OF lens m, simplified] words
    by (simp add: upt_rec numeral_3_eq_3)
  have "(replicate 3 False @ replicate 4294967296 True) ! 3
          \<noteq> map2 min (replicate 4294967299 True) (replicate 4294967299 False) ! 3"
    by (simp add: nth_append)
  then have "replicate 3 False @ replicate 4294967296 True
     \<noteq> map2 min (replicate 4294967299 True) (replicate 4294967299 False)"
    by metis
  then show ?thesis
    unfolding res by simp
qed








































subsection \<open>Gathering vectors\<close>



lemma length_resize: "length (resize n fill xs) = n"
  by (simp add: resize_def)

















subsection \<open>The block transpose\<close>










subsection \<open>Broadcast of a string\<close>








subsection \<open>Local copies and the build without a transport\<close>

text \<open>
  With any other destination or source the scalar and the vector overloads go through the
  transport, and \<open>recv\<close> becomes what the peer sent.
\<close>

lemma send_receive_exchange:
  assumes "\<not> (dest_processor_id = processor_id \<and> source_processor_id = processor_id)"
  shows "send_receive processor_id dest_processor_id send source_processor_id recv incoming
           = Inr ([Call_Sendrecv dest_processor_id 1 source_processor_id 1], incoming)"
  unfolding send_receive_def if_not_P [OF assms]
  by (simp add: MPI_Sendrecv_def bind_par_Inr return_par_def)

lemma send_receive_vector_exchange:
  assumes "\<not> (dest_processor_id = processor_id \<and> source_processor_id = processor_id)"
  shows "send_receive_vector processor_id dest_processor_id send source_processor_id recv incoming
           = Inr ([Call_Sendrecv dest_processor_id 1 source_processor_id 1,
                   Call_Sendrecv dest_processor_id (length send) source_processor_id (length incoming)],
                  incoming)"
  unfolding send_receive_vector_def if_not_P [OF assms]
  by (simp add: MPI_Sendrecv_def bind_par_Inr Let_def length_resize)

text \<open>
  C3. \<open>send_receive\<close> with the destination and the source both equal to the local rank
  sets \<open>recv\<close> to \<open>send\<close> and issues no transport call, for a scalar, a vector and a
  vector of vectors.
\<close>

theorem send_receive_self:
  "dest_processor_id = processor_id \<and> source_processor_id = processor_id \<longrightarrow>
     send_receive processor_id dest_processor_id send source_processor_id recv incoming
       = Inr ([], send)
     \<and> send_receive_vector processor_id dest_processor_id send_v source_processor_id recv_v
         incoming_v = Inr ([], send_v)
     \<and> send_receive_vectors processor_id dest_processor_id send_vv source_processor_id recv_vv
         incoming_vv = Inr ([], send_vv)"
  by (simp add: send_receive_def send_receive_vector_def send_receive_vectors_def return_par_def)

theorem send_receive_self_witness:
  "send_receive 2 2 (5 :: int) 2 0 9 = Inr ([], 5)
   \<and> send_receive_vector 2 2 [1, 2 :: int] 2 [7] [8, 9] = Inr ([], [1, 2])
   \<and> send_receive_vectors 2 2 [[1], [], [2, 3 :: int]] 2 [[7]] [[8, 9]] = Inr ([], [[1], [], [2, 3]])"
  using send_receive_self [of 2 2 2 "5 :: int" 0 9 "[1, 2 :: int]" "[7]" "[8, 9]"
      "[[1], [], [2, 3 :: int]]" "[[7]]" "[[8, 9]]"]
  by simp

text \<open>
  C9. Without a transport, the blocking \<open>send\<close> and \<open>recv\<close> end in \<open>libmesh_error\<close>,
  while \<open>isend\<close>, \<open>irecv\<close> and both \<open>wait\<close> functions return with nothing changed.
\<close>

theorem serial_point_to_point:
  "send_serial dest_processor_id buf tag = Inl LibmeshError
   \<and> recv_serial src_processor_id rbuf rtag = Inl LibmeshError
   \<and> isend_serial dest_processor_id buf r itag = Inr ([], (buf, r))
   \<and> irecv_serial src_processor_id rbuf r itag = Inr ([], (rbuf, r))
   \<and> wait_serial r = Inr ([], r)
   \<and> wait_all_serial rs = Inr ([], rs)"
  by (simp add: send_serial_def recv_serial_def isend_serial_def irecv_serial_def wait_serial_def
      wait_all_serial_def libmesh_error_def bind_par_Inl return_par_def)

theorem serial_point_to_point_witness:
  "send_serial 1 [1, 2 :: int] 0 = Inl LibmeshError
   \<and> recv_serial 1 [0 :: int] (-1) = Inl LibmeshError
   \<and> isend_serial 1 [1, 2 :: int] 4 0 = Inr ([], ([1, 2], 4))
   \<and> irecv_serial 1 [0 :: int] 4 (-1) = Inr ([], ([0], 4))
   \<and> wait_serial 4 = Inr ([], 4)
   \<and> wait_all_serial [4, 5] = Inr ([], [4, 5])"
  using serial_point_to_point [of 1 "[1, 2 :: int]" 0 1 "[0 :: int]" "-1" 4 0 "[4, 5]"]
    serial_point_to_point [of 1 "[1, 2 :: int]" 0 1 "[0 :: int]" "-1" 4 "-1" "[4, 5]"]
  by simp

text \<open>
  C8. With one process, \<open>min\<close>, \<open>max\<close>, \<open>sum\<close>, \<open>gather\<close> of a vector, \<open>allgather\<close>,
  \<open>alltoall\<close> and \<open>broadcast\<close> return what they were given and \<open>verify\<close> returns true,
  with no transport call; \<open>gather\<close> and \<open>allgather\<close> of one value return the vector that
  holds just that value. The root is rank 0, the only rank. The same holds for the
  functions of the build without a transport.
\<close>

theorem single_process_identity:
  fixes T :: "'a value_type" and r :: "'a" and a :: "'b::plus" and v :: "'a list" and w :: "'b list"
    and x :: "'c::zero" and g :: "'c list" and d :: "'d" and dv :: "'d list"
  shows "min_scalar T [r] = Inr ([], [r]) \<and> max_scalar T [r] = Inr ([], [r])
       \<and> sum_scalar [a] = Inr ([], [a])
       \<and> min_bool [b] = Inr ([], [b]) \<and> max_bool [b] = Inr ([], [b])
       \<and> min_vector T [v] = Inr ([], [v]) \<and> max_vector T [v] = Inr ([], [v])
       \<and> sum_vector [w] = Inr ([], [w])
       \<and> min_vector_bool [bs] = Inr ([], [bs]) \<and> max_vector_bool [bs] = Inr ([], [bs])
       \<and> verify T [r] = Inr ([], [True]) \<and> verify_vector T [v] = Inr ([], [True])
       \<and> verify_string [s] = Inr ([], [True])
       \<and> gather_scalar 0 [x] [recv] = Inr ([], [[x]])
       \<and> gather_vector 0 [g] = Inr ([], [g])
       \<and> allgather_scalar [x] [recv] = Inr ([], [[x]])
       \<and> allgather_vector [g] = Inr ([], [g])
       \<and> alltoall [dv] = Inr ([], [dv])
       \<and> broadcast_scalar [d] 0 = Inr ([], [d])
       \<and> broadcast_vector [dv] 0 = Inr ([], [dv])
       \<and> broadcast_string [s] 0 = Inr ([], [s])
       \<and> send_receive 0 0 d 0 d' incoming = Inr ([], d)
       \<and> verify_serial d = Inr ([], True)
       \<and> min_serial d = Inr ([], d) \<and> max_serial d = Inr ([], d) \<and> sum_serial d = Inr ([], d)
       \<and> send_receive_serial 0 d 0 d' = Inr ([], d)
       \<and> gather_scalar_serial 0 x recv = Inr ([], [x])
       \<and> gather_vector_serial 0 dv = Inr ([], dv)
       \<and> allgather_scalar_serial x recv = Inr ([], [x])
       \<and> allgather_vector_serial dv = Inr ([], dv)
       \<and> alltoall_serial dv = Inr ([], dv)
       \<and> broadcast_serial d 0 = Inr ([], d)"
proof -
  have one: "(resize (Suc 0) 0 recv)[0 := x] = [x]" for recv :: "'c list"
    by (cases recv) (simp_all add: resize_def)
  have reductions: "min_scalar T [r] = Inr ([], [r])" "max_scalar T [r] = Inr ([], [r])"
      "sum_scalar [a] = Inr ([], [a])" "min_bool [b] = Inr ([], [b])" "max_bool [b] = Inr ([], [b])"
      "min_vector T [v] = Inr ([], [v])" "max_vector T [v] = Inr ([], [v])"
      "sum_vector [w] = Inr ([], [w])"
      "min_vector_bool [bs] = Inr ([], [bs])" "max_vector_bool [bs] = Inr ([], [bs])"
    by (simp_all add: min_scalar_def max_scalar_def sum_scalar_def min_bool_def max_bool_def
        min_vector_def max_vector_def sum_vector_def min_vector_bool_def max_vector_bool_def
        return_par_def)
  have verifies: "verify T [r] = Inr ([], [True])" "verify_vector T [v] = Inr ([], [True])"
      "verify_string [s] = Inr ([], [True])"
    by (simp_all add: verify_def verify_vector_def verify_string_def return_par_def)
  have gathers: "gather_scalar 0 [x] [recv] = Inr ([], [[x]])"
      "gather_vector 0 [g] = Inr ([], [g])"
      "allgather_scalar [x] [recv] = Inr ([], [[x]])"
      "allgather_vector [g] = Inr ([], [g])"
      "alltoall [dv] = Inr ([], [dv])"
    by (simp_all add: gather_scalar_def gather_vector_def allgather_scalar_def
        allgather_vector_def alltoall_def libmesh_assert_def bind_par_Inr return_par_def one)
  have broadcasts: "broadcast_scalar [d] 0 = Inr ([], [d])"
      "broadcast_vector [dv] 0 = Inr ([], [dv])"
      "broadcast_string [s] 0 = Inr ([], [s])"
      "send_receive 0 0 d 0 d' incoming = Inr ([], d)"
    by (simp_all add: broadcast_scalar_def broadcast_vector_def broadcast_string_def
        send_receive_def libmesh_assert_def bind_par_Inr return_par_def)
  have serial: "verify_serial d = Inr ([], True)" "min_serial d = Inr ([], d)"
      "max_serial d = Inr ([], d)" "sum_serial d = Inr ([], d)"
      "send_receive_serial 0 d 0 d' = Inr ([], d)"
      "gather_scalar_serial 0 x recv = Inr ([], [x])"
      "gather_vector_serial 0 dv = Inr ([], dv)"
      "allgather_scalar_serial x recv = Inr ([], [x])"
      "allgather_vector_serial dv = Inr ([], dv)"
      "alltoall_serial dv = Inr ([], dv)"
      "broadcast_serial d 0 = Inr ([], d)"
    by (simp_all add: verify_serial_def min_serial_def max_serial_def sum_serial_def
        send_receive_serial_def gather_scalar_serial_def gather_vector_serial_def
        allgather_scalar_serial_def allgather_vector_serial_def alltoall_serial_def
        broadcast_serial_def libmesh_assert_def bind_par_Inr return_par_def one)
  show ?thesis
    by (simp only: reductions verifies gathers broadcasts serial simp_thms)
qed

theorem single_process_identity_witness:
  "min_scalar integer_type [3 :: int] = Inr ([], [3])
   \<and> verify floating_type [NaN] = Inr ([], [True])
   \<and> sum_vector [[1, 2 :: int]] = Inr ([], [[1, 2]])
   \<and> gather_vector 0 [[1, 2 :: int]] = Inr ([], [[1, 2]])
   \<and> allgather_scalar [5 :: int] [[]] = Inr ([], [[5]])
   \<and> alltoall [''abc''] = Inr ([], [''abc''])
   \<and> broadcast_string [''mesh''] 0 = Inr ([], [''mesh''])"
  using single_process_identity [of integer_type "3 :: int" "1 :: int" b "[3 :: int]" "[1, 2 :: int]" bs
      "''mesh''" "5 :: int" "[]" "[1, 2 :: int]" "''abc''" "CHR ''a''" "CHR ''b''" "CHR ''c''"]
    single_process_identity [of floating_type NaN "1 :: int" b "[NaN]" "[1, 2 :: int]" bs
      "''mesh''" "5 :: int" "[]" "[1, 2 :: int]" "''abc''" "CHR ''a''" "CHR ''b''" "CHR ''c''"]
  by simp

end
